theory Spec2Isabelle
  imports Complex_Main
begin

section \<open>Common conventions\<close>

text \<open>
  The development embeds the dataset adapters (\<^verbatim>\<open>costum_dataset.py\<close>) and the evaluation
  utilities (\<^verbatim>\<open>evaluate.py\<close>).

  Numbers: Python and numpy floating-point values are modelled by exact rationals
  (\<^typ>\<open>rat\<close>); rounding of IEEE arithmetic is not modelled. Integer arrays hold
  \<^typ>\<open>int\<close>.

  Exceptions are values of \<open>py_error\<close>; a function that can raise returns
  \<open>py_error + 'a\<close> with \<open>Inl\<close> for the exception.
\<close>

datatype py_error =
    ZeroDivisionError
  | ValueError
  | IndexError
  | FileNotFoundError
  | UnboundLocalError
  | LibraryFailure

section \<open>Dice scorer (\<^verbatim>\<open>evaluate.py\<close>, \<^verbatim>\<open>dice_score\<close> and \<^verbatim>\<open>best_symmetric_dice\<close>)\<close>

text \<open>
  A label array is given by its elements in row-major order. The two operands of
  \<^verbatim>\<open>dice_score\<close> are element-wise combined by numpy, which needs one common shape
  (the \<^verbatim>\<open>(h, w)\<close> mask and label of the docstring); operands with different numbers
  of elements make the first element-wise operation raise \<^verbatim>\<open>ValueError\<close>. Numpy's
  broadcasting of unequal shapes is outside the model.
\<close>

definition unique :: "int list \<Rightarrow> int list" where
  \<comment> \<open>\<^verbatim>\<open>np.unique(a)\<close>: the sorted distinct values\<close>
  "unique a = sort (remdups a)"

definition where_eq :: "int list \<Rightarrow> int \<Rightarrow> int list" where
  \<comment> \<open>\<^verbatim>\<open>np.where(a == v, 1, 0)\<close>\<close>
  "where_eq a v = map (\<lambda>e. if e = v then 1 else 0) a"

definition logical_and :: "int list \<Rightarrow> int list \<Rightarrow> bool list" where
  \<comment> \<open>\<^verbatim>\<open>np.logical_and(a, b)\<close> on arrays of one shape\<close>
  "logical_and a b = map2 (\<lambda>p q. p \<noteq> 0 \<and> q \<noteq> 0) a b"

definition sum_bool :: "bool list \<Rightarrow> int" where
  \<comment> \<open>\<^verbatim>\<open>np.sum\<close> of a boolean array counts the true entries\<close>
  "sum_bool bs = sum_list (map (\<lambda>b. if b then 1 else 0) bs)"

definition add_arrays :: "int list \<Rightarrow> int list \<Rightarrow> int list" where
  \<comment> \<open>\<^verbatim>\<open>a + b\<close> on arrays of one shape\<close>
  "add_arrays a b = map2 (+) a b"

definition pair_score :: "int list \<Rightarrow> int list \<Rightarrow> int \<Rightarrow> int \<Rightarrow> rat" where
  \<comment> \<open>the body of the inner loop up to \<^verbatim>\<open>score\<close>\<close>
  "pair_score x y x_instance y_instance =
     (let x_mask = where_eq x x_instance;
          y_mask = where_eq y y_instance;
          overlap = sum_bool (logical_and x_mask y_mask)
      in 2 * of_int overlap / of_int (sum_list (add_arrays x_mask y_mask)))"

fun inner_loop :: "int list \<Rightarrow> int list \<Rightarrow> int \<Rightarrow> int list \<Rightarrow> rat \<Rightarrow> rat" where
  \<comment> \<open>\<^verbatim>\<open>for y_instance in y_instances: ... max_val = max([max_val, score])\<close>\<close>
  "inner_loop x y x_instance [] max_val = max_val"
| "inner_loop x y x_instance (y_instance # rest) max_val =
     inner_loop x y x_instance rest (max max_val (pair_score x y x_instance y_instance))"

fun outer_loop :: "int list \<Rightarrow> int list \<Rightarrow> int list \<Rightarrow> int list \<Rightarrow> rat \<Rightarrow> rat" where
  \<comment> \<open>\<^verbatim>\<open>for x_instance in x_instances: max_val = 0; ...; total_score += max_val\<close>\<close>
  "outer_loop x y [] y_instances total_score = total_score"
| "outer_loop x y (x_instance # rest) y_instances total_score =
     outer_loop x y rest y_instances
       (total_score + inner_loop x y x_instance y_instances 0)"

definition dice_score :: "int list \<Rightarrow> int list \<Rightarrow> py_error + rat" where
  "dice_score x y =
     (let x_instances = unique x;
          y_instances = unique y
      in if x_instances \<noteq> [] \<and> y_instances \<noteq> [] \<and> length x \<noteq> length y
         then Inl ValueError \<comment> \<open>raised by the first run of the inner loop's body\<close>
         else let total_score = outer_loop x y x_instances y_instances 0
              in if length x_instances = 0
                 then Inl ZeroDivisionError \<comment> \<open>\<^verbatim>\<open>0 / 0\<close> on Python integers\<close>
                 else Inr (total_score / of_nat (length x_instances)))"

definition best_symmetric_dice :: "int list \<Rightarrow> int list \<Rightarrow> py_error + rat" where
  "best_symmetric_dice pred gt =
     (case dice_score pred gt of
        Inl e \<Rightarrow> Inl e
      | Inr score1 \<Rightarrow>
          (case dice_score gt pred of
             Inl e \<Rightarrow> Inl e
           | Inr score2 \<Rightarrow> Inr (max score1 score2)))"

subsection \<open>The scorer as the specification words it\<close>

text \<open>
  The instance with label \<open>v\<close> in an array is the set of positions holding \<open>v\<close>; the
  Dice coefficient of two position sets is \<open>2|A \<inter> B| / (|A| + |B|)\<close>; the score
  averages, over the distinct labels of \<open>x\<close>, the best coefficient against a label of
  \<open>y\<close>.
\<close>

definition region :: "int list \<Rightarrow> int \<Rightarrow> nat set" where
  "region a v = {i. i < length a \<and> a ! i = v}"

definition dice_coefficient :: "nat set \<Rightarrow> nat set \<Rightarrow> rat" where
  "dice_coefficient A B = 2 * of_nat (card (A \<inter> B)) / of_nat (card A + card B)"

definition dice_score_spec :: "int list \<Rightarrow> int list \<Rightarrow> rat" where
  "dice_score_spec x y =
     (\<Sum>v\<in>set x. Max ((\<lambda>w. dice_coefficient (region x v) (region y w)) ` set y))
       / of_nat (card (set x))"

section \<open>Sample providers (\<^verbatim>\<open>costum_dataset.py\<close>)\<close>

text \<open>
  The file system is what the three loaders of the source return on a path:
  \<^verbatim>\<open>open(p).read()\<close>, \<^verbatim>\<open>PIL.Image.open(p)\<close> and \<^verbatim>\<open>np.load(p)['arr_0']\<close>, with
  \<open>None\<close> where the file is missing and the loader raises. Pixel values are decoded,
  resampled and normalised by PIL and torchvision primitives; the model keeps what the
  source computes itself, the size \<open>(width, height)\<close> of each image.
\<close>

record pil_image =
  img_size :: "nat \<times> nat"

record file_system =
  read_text :: "string \<rightharpoonup> string"
  im_open :: "string \<rightharpoonup> pil_image"
  np_load :: "string \<rightharpoonup> int list list"

definition newline :: char where
  "newline = CHR 0x0A"

fun split_on :: "char \<Rightarrow> string \<Rightarrow> string list" where
  \<comment> \<open>\<^verbatim>\<open>s.split(sep)\<close> for a one-character separator\<close>
  "split_on sep [] = [[]]"
| "split_on sep (c # cs) =
     (if c = sep then [] # split_on sep cs
      else (case split_on sep cs of
              [] \<Rightarrow> [[c]]
            | piece # pieces \<Rightarrow> (c # piece) # pieces))"

definition list_getitem :: "'a list \<Rightarrow> int \<Rightarrow> py_error + 'a" where
  \<comment> \<open>\<^verbatim>\<open>xs[item]\<close> on a Python list: a negative index counts from the end\<close>
  "list_getitem xs item =
     (let n = int (length xs)
      in if 0 \<le> item \<and> item < n then Inr (xs ! nat item)
         else if - n \<le> item \<and> item < 0 then Inr (xs ! nat (n + item))
         else Inl IndexError)"

subsection \<open>The fixed-size provider \<^verbatim>\<open>coco224Dataset\<close>\<close>

record coco224Dataset =
  ids :: "string list"
  data_path :: string
  labels_path :: string


definition coco224Dataset_init ::
  "file_system \<Rightarrow> string \<Rightarrow> string \<Rightarrow> string \<Rightarrow> py_error + coco224Dataset" where
  "coco224Dataset_init fs dpath lpath ids_file_path =
     (case read_text fs ids_file_path of
        None \<Rightarrow> Inl FileNotFoundError
      | Some content \<Rightarrow>
          Inr \<lparr>ids = butlast (split_on newline content),
               data_path = dpath, labels_path = lpath\<rparr>)"

definition coco224Dataset_len :: "coco224Dataset \<Rightarrow> nat" where
  "coco224Dataset_len self = length (ids self)"


subsection \<open>Resizing a sample (\<^verbatim>\<open>resize_sample\<close>)\<close>




subsection \<open>The resizable provider \<^verbatim>\<open>VOCDataset\<close>\<close>

text \<open>
  \<^verbatim>\<open>VOCDataset\<close> has the three fields of \<^verbatim>\<open>coco224Dataset\<close> and three more; the
  record extends the other one only to share the field names.
\<close>

record VOCDataset = coco224Dataset +
  img_h :: nat
  img_w :: nat
  evaluate :: bool


definition VOCDataset_init ::
  "file_system \<Rightarrow> string \<Rightarrow> string \<Rightarrow> string \<Rightarrow> nat \<Rightarrow> nat \<Rightarrow> bool
     \<Rightarrow> py_error + VOCDataset" where
  "VOCDataset_init fs dpath lpath ids_file_path h w ev =
     (case read_text fs ids_file_path of
        None \<Rightarrow> Inl FileNotFoundError
      | Some content \<Rightarrow>
          Inr \<lparr>ids = butlast (split_on newline content),
               data_path = dpath, labels_path = lpath,
               img_h = h, img_w = w, evaluate = ev\<rparr>)"

definition VOCDataset_len :: "VOCDataset \<Rightarrow> nat" where
  "VOCDataset_len self = length (ids self)"


subsection \<open>The identifier file as the specification words it\<close>

text \<open>
  The lines of a text are its pieces between newlines; the specification counts those
  that are not empty.
\<close>

definition non_empty_lines :: "string \<Rightarrow> string list" where
  "non_empty_lines content = filter (\<lambda>l. l \<noteq> []) (split_on newline content)"

definition newline_terminated :: "string \<Rightarrow> bool" where
  \<comment> \<open>nothing follows the last newline: the text is empty or ends with a newline\<close>
  "newline_terminated content = (last (split_on newline content) = [])"

definition no_blank_line :: "string \<Rightarrow> bool" where
  \<comment> \<open>no piece before the last newline is empty\<close>
  "no_blank_line content = (filter (\<lambda>l. l = []) (butlast (split_on newline content)) = [])"

definition example_fs :: file_system where
  "example_fs =
     \<lparr>read_text = [''ids.txt'' \<mapsto> ''a'' @ [newline]],
      im_open = [''img/a.jpg'' \<mapsto> \<lparr>img_size = (4, 3)\<rparr>, ''lab/a.png'' \<mapsto> \<lparr>img_size = (4, 3)\<rparr>],
      np_load = [''lab/a.npz'' \<mapsto> [[0, 1], [1, 1]]]\<rparr>"

definition ids_fs :: "string \<Rightarrow> file_system" where
  \<comment> \<open>the example file system with another identifier file\<close>
  "ids_fs content = example_fs\<lparr>read_text := [''ids.txt'' \<mapsto> content]\<rparr>"

definition example_coco :: coco224Dataset where
  "example_coco = \<lparr>ids = [''a''], data_path = ''img/'', labels_path = ''lab/''\<rparr>"

definition example_voc :: VOCDataset where
  "example_voc = \<lparr>ids = [''a''], data_path = ''img/'', labels_path = ''lab/'',
                   img_h = 224, img_w = 224, evaluate = False\<rparr>"

definition unterminated_ids :: string where
  \<comment> \<open>two identifiers, no newline after the second\<close>
  "unterminated_ids = ''a'' @ [newline] @ ''b''"

definition blank_line_ids :: string where
  \<comment> \<open>two identifiers separated by an empty line, newline-terminated\<close>
  "blank_line_ids = ''a'' @ [newline, newline] @ ''b'' @ [newline]"

section \<open>Label predictor (\<^verbatim>\<open>evaluate.py\<close>, \<^verbatim>\<open>predict_label\<close>)\<close>

text \<open>
  A numpy array is its shape and its elements in row-major order. The values of the
  feature tensor are rationals; they only reach the reduction and the clustering, which
  are library calls (scikit-learn's PCA, HDBSCAN) and parameters of the model: each maps
  its input to a result or to the exception it raises.
\<close>

record 'a ndarray =
  shape :: "nat list"
  data :: "'a list"

record externals =
  pca_fit_transform :: "nat \<Rightarrow> rat list list \<Rightarrow> py_error + rat list list"
  hdbscan_fit_predict :: "rat list list \<Rightarrow> py_error + int list"

definition transpose_120 :: "rat ndarray \<Rightarrow> py_error + rat ndarray" where
  \<comment> \<open>\<^verbatim>\<open>np.transpose(a, [1,2,0])\<close>: from \<open>(c,h,w)\<close> to \<open>(h,w,c)\<close>\<close>
  "transpose_120 a =
     (case shape a of
        [c, h, w] \<Rightarrow>
          Inr \<lparr>shape = [h, w, c],
               data = concat (map (\<lambda>i. concat (map (\<lambda>j.
                        map (\<lambda>k. data a ! ((k * h + i) * w + j)) [0..<c]) [0..<w])) [0..<h])\<rparr>
      | _ \<Rightarrow> Inl ValueError)"

definition ceil_div :: "nat \<Rightarrow> nat \<Rightarrow> nat" where
  "ceil_div n f = (n + f - 1) div f"

text \<open>
  Modelled from the library's documentation: \<^verbatim>\<open>skimage.measure.block_reduce\<close> with
  block \<open>(f, f, 1)\<close> and \<^verbatim>\<open>np.max\<close> pads each spatial axis with the constant 0 up to
  a multiple of \<open>f\<close> and takes the maximum of every \<open>f \<times> f\<close> block; a factor below
  1 is refused.
\<close>

definition block_reduce :: "rat ndarray \<Rightarrow> nat \<Rightarrow> py_error + rat ndarray" where
  "block_reduce a f =
     (case shape a of
        [h, w, c] \<Rightarrow>
          if f = 0 then Inl ValueError
          else
            let padded = (\<lambda>i j k. if i < h \<and> j < w then data a ! ((i * w + j) * c + k) else 0);
                block = (\<lambda>i j k. concat (map (\<lambda>di. map (\<lambda>dj. padded (i * f + di) (j * f + dj) k)
                                                  [0..<f]) [0..<f]))
            in Inr \<lparr>shape = [ceil_div h f, ceil_div w f, c],
                    data = concat (map (\<lambda>i. concat (map (\<lambda>j.
                             map (\<lambda>k. fold max (block i j k) (padded (i * f) (j * f) k)) [0..<c])
                               [0..<ceil_div w f])) [0..<ceil_div h f])\<rparr>
      | _ \<Rightarrow> Inl ValueError)"

definition reshape_points :: "rat ndarray \<Rightarrow> nat \<Rightarrow> nat \<Rightarrow> rat list list" where
  \<comment> \<open>\<^verbatim>\<open>np.reshape(features, [h*w, c])\<close> of an \<open>(h,w,c)\<close> array: one row per pixel\<close>
  "reshape_points a n c = map (\<lambda>p. take c (drop (p * c) (data a))) [0..<n]"

definition reduce :: "externals \<Rightarrow> rat list list \<Rightarrow> nat \<Rightarrow> py_error + rat list list" where
  "reduce ext features dimension = pca_fit_transform ext dimension features"

definition cluster_features :: "externals \<Rightarrow> rat list list \<Rightarrow> py_error + int list" where
  "cluster_features ext features =
     (case hdbscan_fit_predict ext features of
        Inl e \<Rightarrow> Inl e
      | Inr labels \<Rightarrow> Inr (map (\<lambda>l. if l = - 1 then 0 else l) labels))"

text \<open>
  Modelled from the library's documentation: \<^verbatim>\<open>skimage.transform.rescale\<close> with
  \<^verbatim>\<open>order=0\<close>, an integer \<^verbatim>\<open>scale\<close> \<open>f\<close> and \<^verbatim>\<open>preserve_range=True\<close> returns a
  floating-point array of \<open>f\<close> times the height and width whose entry \<open>(i, j)\<close> is
  the input's entry \<open>(i div f, j div f)\<close> (nearest neighbour, values kept).
\<close>

definition rescale :: "int ndarray \<Rightarrow> nat \<Rightarrow> py_error + rat ndarray" where
  "rescale a f =
     (case shape a of
        [h, w] \<Rightarrow>
          Inr \<lparr>shape = [h * f, w * f],
               data = concat (map (\<lambda>i. map (\<lambda>j. of_int (data a ! ((i div f) * w + j div f)))
                                           [0..<w * f]) [0..<h * f])\<rparr>
      | _ \<Rightarrow> Inl ValueError)"

definition astype_int32 :: "rat list \<Rightarrow> int list" where
  \<comment> \<open>conversion of floating-point entries to \<^verbatim>\<open>np.int32\<close>: truncation towards zero
      (cluster ids and label values are far inside the range of 32 bits)\<close>
  "astype_int32 xs = map (\<lambda>v. if 0 \<le> v then \<lfloor>v\<rfloor> else \<lceil>v\<rceil>) xs"

definition predict_label :: "externals \<Rightarrow> rat ndarray \<Rightarrow> nat \<Rightarrow> py_error + int ndarray" where
  "predict_label ext features downsample_factor =
     (case transpose_120 features of
        Inl e \<Rightarrow> Inl e
      | Inr transposed \<Rightarrow>
     (case block_reduce transposed downsample_factor of
        Inl e \<Rightarrow> Inl e
      | Inr reduced \<Rightarrow>
     (case shape reduced of
        [h, w, c] \<Rightarrow>
          (let flat_features = reshape_points reduced (h * w) c
           in case reduce ext flat_features 10 of
                Inl e \<Rightarrow> Inl e
              | Inr reduced_features \<Rightarrow>
             (case cluster_features ext reduced_features of
                Inl e \<Rightarrow> Inl e
              | Inr cluster_mask \<Rightarrow>
                  if length cluster_mask \<noteq> h * w
                  then Inl ValueError \<comment> \<open>\<^verbatim>\<open>np.reshape(cluster_mask, [h,w])\<close>\<close>
                  else
                    (case rescale \<lparr>shape = [h, w], data = cluster_mask\<rparr> downsample_factor of
                       Inl e \<Rightarrow> Inl e
                     | Inr predicted_label \<Rightarrow>
                         Inr \<lparr>shape = shape predicted_label,
                              data = astype_int32 (data predicted_label)\<rparr>)))
      | _ \<Rightarrow> Inl ValueError)))"

definition stub_externals :: externals where
  \<comment> \<open>library calls that succeed: the reduction returns its input; the clustering marks
      a point noise when its first coordinate is negative, and puts the others in
      cluster 0 or 1\<close>
  "stub_externals =
     \<lparr>pca_fit_transform = (\<lambda>n points. Inr points),
      hdbscan_fit_predict =
        (\<lambda>points. Inr (map (\<lambda>p. if p = [] then 0 else if hd p < 0 then - 1
                                   else if hd p < 5 then 0 else 1) points))\<rparr>"


section \<open>Visualisation (\<^verbatim>\<open>evaluate.py\<close>, \<^verbatim>\<open>visualize\<close>)\<close>










definition clear_255 :: "rat list \<Rightarrow> rat list" where
  \<comment> \<open>the buffer after \<^verbatim>\<open>label[np.where(label==255)] = 0\<close>\<close>
  "clear_255 xs = map (\<lambda>v. if v = 255 then 0 else v) xs"






section \<open>Evaluator (\<^verbatim>\<open>evaluate.py\<close>, \<^verbatim>\<open>evaluate_model\<close>)\<close>

text \<open>
  The model and the loss function are arguments; the dataloader is the list of the
  batches it yields. The conversion of the input to \<^verbatim>\<open>float_type\<close> (a name of the
  repository's \<^verbatim>\<open>config\<close> module) and the wrapping in a \<^verbatim>\<open>Variable\<close> are taken as part of
  the model argument, and the loss is the scalar that \<^verbatim>\<open>current_loss.data.numpy()\<close>
  holds. The Dice scorer receives the elements of the predicted mask and of the first
  label. Dividing a numpy float by the integer 0 does not raise: it gives an infinity
  or a NaN.
\<close>

datatype np_float = Finite rat | PosInf | NegInf | NaN

definition np_divide :: "rat \<Rightarrow> nat \<Rightarrow> np_float" where
  "np_divide a n =
     (if n \<noteq> 0 then Finite (a / of_nat n)
      else if 0 < a then PosInf else if a < 0 then NegInf else NaN)"

record batch =
  batch_image :: "rat ndarray"
  batch_label :: "int ndarray"

definition first_item :: "'a ndarray \<Rightarrow> py_error + 'a ndarray" where
  \<comment> \<open>\<^verbatim>\<open>a[0]\<close>\<close>
  "first_item a =
     (case shape a of
        [] \<Rightarrow> Inl IndexError
      | n # rest \<Rightarrow>
          if n = 0 then Inl IndexError
          else Inr \<lparr>shape = rest, data = take (prod_list rest) (data a)\<rparr>)"

definition eval_batch ::
  "externals \<Rightarrow> (rat ndarray \<Rightarrow> py_error + rat ndarray)
     \<Rightarrow> (rat ndarray \<Rightarrow> int ndarray \<Rightarrow> py_error + rat) \<Rightarrow> batch \<Rightarrow> py_error + rat \<times> rat" where
  \<comment> \<open>the body of the loop: the batch's loss and the Dice score of its first sample\<close>
  "eval_batch ext model loss_fn b =
     (let labels = batch_label b
      in case model (batch_image b) of
           Inl e \<Rightarrow> Inl e
         | Inr features \<Rightarrow>
        (case loss_fn features labels of
           Inl e \<Rightarrow> Inl e
         | Inr current_loss \<Rightarrow>
        (case first_item features of
           Inl e \<Rightarrow> Inl e
         | Inr np_features0 \<Rightarrow>
        (case predict_label ext np_features0 2 of
           Inl e \<Rightarrow> Inl e
         | Inr pred \<Rightarrow>
        (case first_item labels of
           Inl e \<Rightarrow> Inl e
         | Inr labels0 \<Rightarrow>
        (case best_symmetric_dice (data pred) (data labels0) of
           Inl e \<Rightarrow> Inl e
         | Inr dice_dist \<Rightarrow> Inr (current_loss, dice_dist)))))))"

fun eval_loop ::
  "externals \<Rightarrow> (rat ndarray \<Rightarrow> py_error + rat ndarray)
     \<Rightarrow> (rat ndarray \<Rightarrow> int ndarray \<Rightarrow> py_error + rat)
     \<Rightarrow> batch list \<Rightarrow> nat \<Rightarrow> rat \<Rightarrow> rat \<Rightarrow> nat option
     \<Rightarrow> py_error + rat \<times> rat \<times> nat option" where
  \<comment> \<open>\<^verbatim>\<open>for i, batch in enumerate(dataloader)\<close>: the next index, the running sums and the
      value of \<^verbatim>\<open>i\<close> (\<open>None\<close> while it is unbound)\<close>
  "eval_loop ext model loss_fn [] next_i running_loss running_dice i =
     Inr (running_loss, running_dice, i)"
| "eval_loop ext model loss_fn (b # rest) next_i running_loss running_dice i =
     (case eval_batch ext model loss_fn b of
        Inl e \<Rightarrow> Inl e
      | Inr (current_loss, dice_dist) \<Rightarrow>
          eval_loop ext model loss_fn rest (Suc next_i)
            (running_loss + current_loss) (running_dice + dice_dist) (Some next_i))"

definition evaluate_model ::
  "externals \<Rightarrow> (rat ndarray \<Rightarrow> py_error + rat ndarray)
     \<Rightarrow> (rat ndarray \<Rightarrow> int ndarray \<Rightarrow> py_error + rat)
     \<Rightarrow> batch list \<Rightarrow> py_error + np_float \<times> np_float" where
  "evaluate_model ext model loss_fn dataloader =
     (case eval_loop ext model loss_fn dataloader 0 0 0 None of
        Inl e \<Rightarrow> Inl e
      | Inr (running_loss, running_dice, None) \<Rightarrow> Inl UnboundLocalError
      | Inr (running_loss, running_dice, Some i) \<Rightarrow>
          Inr (np_divide running_loss i, np_divide running_dice i))"

definition example_model :: "rat ndarray \<Rightarrow> py_error + rat ndarray" where
  \<comment> \<open>a model whose features are its input\<close>
  "example_model inputs = Inr inputs"

definition example_loss :: "rat ndarray \<Rightarrow> int ndarray \<Rightarrow> py_error + rat" where
  \<comment> \<open>a loss function: the sum of the features\<close>
  "example_loss features labels = Inr (sum_list (data features))"

definition example_batch :: "rat \<Rightarrow> batch" where
  \<comment> \<open>a batch of one \<open>1 \<times> 2 \<times> 2\<close> image and its all-background label; its loss under
      \<open>example_loss\<close> is \<open>v\<close>, and its prediction matches the label (Dice 1)\<close>
  "example_batch v =
     \<lparr>batch_image = \<lparr>shape = [1, 1, 2, 2], data = [v, 0, 0, 0]\<rparr>,
      batch_label = \<lparr>shape = [1, 2, 2], data = [0, 0, 0, 0]\<rparr>\<rparr>"

section \<open>Facts about the Dice scorer\<close>

lemma set_unique: "set (unique a) = set a"
  by (simp add: unique_def)

lemma distinct_unique: "distinct (unique a)"
  by (simp add: unique_def)

lemma length_unique: "length (unique a) = card (set a)"
  using distinct_card [OF distinct_unique, of a] by (simp add: set_unique)

lemma unique_Nil_iff: "unique a = [] \<longleftrightarrow> a = []"
  using set_unique [of a] by (metis set_empty)

lemma inner_loop_Max:
  "inner_loop x y v ws m = Max (insert m (pair_score x y v ` set ws))"
proof (induction ws arbitrary: m)
  case Nil
  show ?case by simp
next
  case (Cons w ws)
  let ?S = "pair_score x y v ` set ws"
  have "inner_loop x y v (w # ws) m = Max (insert (max m (pair_score x y v w)) ?S)"
    by (simp add: Cons.IH)
  also have "\<dots> = Max (insert m (insert (pair_score x y v w) ?S))"
  proof (cases "?S = {}")
    case True
    then show ?thesis by (simp add: max.commute)
  next
    case False
    then show ?thesis by (simp add: max.assoc)
  qed
  finally show ?case by simp
qed

lemma outer_loop_sum_list:
  "outer_loop x y vs ws t = t + sum_list (map (\<lambda>v. inner_loop x y v ws 0) vs)"
  by (induction vs arbitrary: t) (simp_all add: add.assoc)

lemma outer_loop_sum:
  "outer_loop x y (unique x) (unique y) 0
     = (\<Sum>v\<in>set x. Max (insert 0 (pair_score x y v ` set y)))"
proof -
  have "sum_list (map (\<lambda>v. inner_loop x y v (unique y) 0) (unique x))
          = (\<Sum>v\<in>set (unique x). inner_loop x y v (unique y) 0)"
    by (rule sum_list_distinct_conv_sum_set [OF distinct_unique])
  then show ?thesis
    by (simp add: outer_loop_sum_list inner_loop_Max set_unique)
qed

lemma dice_score_sets:
  "dice_score x y =
     (if x \<noteq> [] \<and> y \<noteq> [] \<and> length x \<noteq> length y then Inl ValueError
      else if x = [] then Inl ZeroDivisionError
      else Inr ((\<Sum>v\<in>set x. Max (insert 0 (pair_score x y v ` set y)))
                  / of_nat (card (set x))))"
  by (simp add: dice_score_def Let_def unique_Nil_iff outer_loop_sum length_unique)

lemma sum_list_where_eq: "sum_list (where_eq a v) = int (card (region a v))"
proof -
  have "sum_list (where_eq a v) = int (length (filter (\<lambda>e. e = v) a))"
    unfolding where_eq_def by (induction a) simp_all
  also have "length (filter (\<lambda>e. e = v) a) = card (region a v)"
    by (simp add: length_filter_conv_card region_def)
  finally show ?thesis .
qed

lemma sum_list_add_arrays:
  "length a = length b \<Longrightarrow> sum_list (add_arrays a b) = sum_list a + sum_list b"
  unfolding add_arrays_def by (induction a b rule: list_induct2) simp_all

lemma length_where_eq: "length (where_eq a v) = length a"
  by (simp add: where_eq_def)

lemma overlap_filter:
  "sum_bool (logical_and (where_eq x v) (where_eq y w))
     = int (length (filter (\<lambda>p. fst p = v \<and> snd p = w) (zip x y)))"
  unfolding sum_bool_def logical_and_def where_eq_def
  by (induction x arbitrary: y) (auto simp: zip_Cons1 split: list.splits) 

lemma overlap_card:
  assumes "length x = length y"
  shows "sum_bool (logical_and (where_eq x v) (where_eq y w))
     = int (card (region x v \<inter> region y w))"
proof -
  have "{i. i < length (zip x y) \<and> fst (zip x y ! i) = v \<and> snd (zip x y ! i) = w}
          = region x v \<inter> region y w"
    using assms by (auto simp: region_def)
  then show ?thesis
    by (simp add: overlap_filter length_filter_conv_card)
qed

lemma pair_score_dice_coefficient:
  assumes "length x = length y"
  shows "pair_score x y v w = dice_coefficient (region x v) (region y w)"
  using assms
  by (simp add: pair_score_def Let_def overlap_card sum_list_add_arrays length_where_eq
      sum_list_where_eq dice_coefficient_def)

lemma pair_score_denominator:
  assumes "v \<in> set x" and "length x = length y"
  shows "0 < sum_list (add_arrays (where_eq x v) (where_eq y w))"
proof -
  have "sum_list (add_arrays (where_eq x v) (where_eq y w))
          = int (card (region x v)) + int (card (region y w))"
    using assms(2) by (simp add: sum_list_add_arrays length_where_eq sum_list_where_eq)
  moreover from assms(1) obtain i where "i < length x" "x ! i = v"
    by (auto simp: in_set_conv_nth)
  then have "i \<in> region x v" by (simp add: region_def)
  then have "0 < card (region x v)"
    by (auto simp: card_gt_0_iff region_def)
  ultimately show ?thesis by simp
qed

lemma finite_region: "finite (region a v)"
  by (simp add: region_def)

lemma region_nonempty: "v \<in> set a \<Longrightarrow> 0 < card (region a v)"
proof -
  assume "v \<in> set a"
  then obtain i where "i < length a" "a ! i = v" by (auto simp: in_set_conv_nth)
  then have "i \<in> region a v" by (simp add: region_def)
  then show ?thesis using finite_region [of a v] by (auto simp: card_gt_0_iff)
qed

lemma ratio_le_1:
  fixes a b :: rat
  assumes "a \<le> b" "0 \<le> b"
  shows "a / b \<le> 1"
proof (cases "b = 0")
  case True
  then show ?thesis by simp
next
  case False
  with assms have "0 < b" by simp
  then show ?thesis using assms(1) by (simp add: divide_le_eq_1_pos)
qed

lemma dice_coefficient_nonneg: "0 \<le> dice_coefficient A B"
  by (simp add: dice_coefficient_def)

lemma dice_coefficient_le_1:
  assumes "finite A" "finite B"
  shows "dice_coefficient A B \<le> 1"
proof -
  have "card (A \<inter> B) \<le> card A" "card (A \<inter> B) \<le> card B"
    using assms by (simp_all add: card_mono)
  then have le: "2 * card (A \<inter> B) \<le> card A + card B" by simp
  have "(2::rat) * of_nat (card (A \<inter> B)) \<le> of_nat (card A + card B)"
    using le by (metis of_nat_mult of_nat_numeral of_nat_le_iff)
  then show ?thesis
    unfolding dice_coefficient_def by (rule ratio_le_1) simp
qed

lemma Max_insert_0:
  assumes "finite S" "S \<noteq> {}" "\<forall>s\<in>S. (0::rat) \<le> s"
  shows "Max (insert 0 S) = Max S"
proof -
  have "0 \<le> Max S" using assms by (meson Max_in)
  then show ?thesis using assms by (simp add: max_def)
qed

lemma dice_score_eq_spec:
  assumes "x \<noteq> []" "length x = length y"
  shows "dice_score x y = Inr (dice_score_spec x y)"
proof -
  from assms have y: "y \<noteq> []" by auto
  have "Max (insert 0 (pair_score x y v ` set y))
          = Max ((\<lambda>w. dice_coefficient (region x v) (region y w)) ` set y)" for v
  proof -
    have "pair_score x y v ` set y = (\<lambda>w. dice_coefficient (region x v) (region y w)) ` set y"
      using assms(2) by (simp add: pair_score_dice_coefficient)
    moreover have "Max (insert 0 ((\<lambda>w. dice_coefficient (region x v) (region y w)) ` set y))
       = Max ((\<lambda>w. dice_coefficient (region x v) (region y w)) ` set y)"
      using y by (intro Max_insert_0) (auto simp: dice_coefficient_nonneg)
    ultimately show ?thesis by simp
  qed
  then show ?thesis
    using assms by (simp add: dice_score_sets dice_score_spec_def)
qed



lemma dice_score_same:
  assumes "x \<noteq> []"
  shows "dice_score x x = Inr 1"
proof -
  have best: "Max ((\<lambda>w. dice_coefficient (region x v) (region x w)) ` set x) = 1"
    if v: "v \<in> set x" for v
  proof (rule Max_eqI)
    show "finite ((\<lambda>w. dice_coefficient (region x v) (region x w)) ` set x)" by simp
    show "y \<le> 1" if "y \<in> (\<lambda>w. dice_coefficient (region x v) (region x w)) ` set x" for y
      using that by (auto simp: dice_coefficient_le_1 finite_region)
    have "dice_coefficient (region x v) (region x v) = 1"
      using region_nonempty [OF v] by (simp add: dice_coefficient_def)
    then show "1 \<in> (\<lambda>w. dice_coefficient (region x v) (region x w)) ` set x"
      using v by (metis (mono_tags, lifting) image_eqI)
  qed
  have "dice_score_spec x x = 1"
    using assms by (simp add: dice_score_spec_def best card_gt_0_iff)
  with dice_score_eq_spec [of x x] assms show ?thesis by simp
qed

lemma where_eq_map:
  assumes "inj_on f (set a)" "v \<in> set a"
  shows "where_eq (map f a) (f v) = where_eq a v"
proof -
  have "(f e = f v) = (e = v)" if "e \<in> set a" for e
    using assms that by (auto dest: inj_onD)
  then show ?thesis by (simp add: where_eq_def)
qed

lemma pair_score_map:
  assumes "inj_on f (set x)" "inj_on g (set y)" "v \<in> set x" "w \<in> set y"
  shows "pair_score (map f x) (map g y) (f v) (g w) = pair_score x y v w"
  using assms by (simp add: pair_score_def where_eq_map)

lemma best_symmetric_dice_commute:
  "best_symmetric_dice pred gt = best_symmetric_dice gt pred"
  by (auto simp: best_symmetric_dice_def dice_score_sets max.commute)

lemma best_symmetric_dice_is_max:
  assumes "pred \<noteq> []" "length pred = length gt"
  shows "\<exists>s1 s2. dice_score pred gt = Inr s1 \<and> dice_score gt pred = Inr s2
            \<and> best_symmetric_dice pred gt = Inr (max s1 s2)"
proof -
  from assms have "gt \<noteq> []" by auto
  with assms show ?thesis
    by (simp add: best_symmetric_dice_def dice_score_sets)
qed

subsection \<open>Claims about the Dice scorer\<close>



text \<open>
  C7. \<^verbatim>\<open>best_symmetric_dice(pred, gt)\<close> is the maximum of \<^verbatim>\<open>dice_score(pred, gt)\<close> and
  \<^verbatim>\<open>dice_score(gt, pred)\<close>, hence symmetric in its arguments; the perfect inverse
  labelling \<open>[[1,1],[0,0]]\<close> against \<open>[[0,0],[1,1]]\<close> scores 1, and
  \<open>[[1,1],[2,2]]\<close> against \<open>[[1,2],[1,2]]\<close> scores 1/2. The 2-D arrays are given
  row by row and flattened in row-major order (\<^const>\<open>concat\<close>).
\<close>

theorem best_symmetric_dice_max_and_symmetric:
  "best_symmetric_dice pred gt = best_symmetric_dice gt pred
   \<and> (pred \<noteq> [] \<and> length pred = length gt \<longrightarrow>
        (\<exists>s1 s2. dice_score pred gt = Inr s1 \<and> dice_score gt pred = Inr s2
           \<and> best_symmetric_dice pred gt = Inr (max s1 s2)))
   \<and> best_symmetric_dice (concat [[1, 1], [0, 0]]) (concat [[0, 0], [1, 1]]) = Inr 1
   \<and> best_symmetric_dice (concat [[1, 1], [2, 2]]) (concat [[1, 2], [1, 2]]) = Inr (1 / 2)"
proof (intro conjI impI)
  show "best_symmetric_dice pred gt = best_symmetric_dice gt pred"
    by (rule best_symmetric_dice_commute)
next
  assume "pred \<noteq> [] \<and> length pred = length gt"
  then show "\<exists>s1 s2. dice_score pred gt = Inr s1 \<and> dice_score gt pred = Inr s2
               \<and> best_symmetric_dice pred gt = Inr (max s1 s2)"
    using best_symmetric_dice_is_max [of pred gt] by blast
next
  show "best_symmetric_dice (concat [[1, 1], [0, 0]]) (concat [[0, 0], [1, 1]]) = Inr 1"
    by code_simp
next
  show "best_symmetric_dice (concat [[1, 1], [2, 2]]) (concat [[1, 2], [1, 2]]) = Inr (1 / 2)"
    by code_simp
qed

theorem best_symmetric_dice_max_and_symmetric_witness:
  "best_symmetric_dice [1, 1, 2, 3] [1, 2, 2, 2] = best_symmetric_dice [1, 2, 2, 2] [1, 1, 2, 3]
   \<and> dice_score [1, 1, 2, 3] [1, 2, 2, 2] = Inr (5 / 9)
   \<and> dice_score [1, 2, 2, 2] [1, 1, 2, 3] = Inr (7 / 12)
   \<and> best_symmetric_dice [1, 1, 2, 3] [1, 2, 2, 2] = Inr (7 / 12)"
proof -
  note claim = best_symmetric_dice_max_and_symmetric [of "[1, 1, 2, 3]" "[1, 2, 2, 2]"]
  have a: "dice_score [1, 1, 2, 3] [1, 2, 2, 2] = Inr (5 / 9)" by code_simp
  have b: "dice_score [1, 2, 2, 2] [1, 1, 2, 3] = Inr (7 / 12)" by code_simp
  have shape: "[1, 1, 2, 3] \<noteq> ([] :: int list)
                 \<and> length [1, 1, 2, 3 :: int] = length [1, 2, 2, 2 :: int]"
    by simp
  from claim shape
  have "\<exists>s1 s2. dice_score [1, 1, 2, 3] [1, 2, 2, 2] = Inr s1
           \<and> dice_score [1, 2, 2, 2] [1, 1, 2, 3] = Inr s2
           \<and> best_symmetric_dice [1, 1, 2, 3] [1, 2, 2, 2] = Inr (max s1 s2)"
    by blast
  with a b have c: "best_symmetric_dice [1, 1, 2, 3] [1, 2, 2, 2] = Inr (7 / 12)"
    by auto
  from claim
  have d: "best_symmetric_dice [1, 1, 2, 3] [1, 2, 2, 2]
             = best_symmetric_dice [1, 2, 2, 2] [1, 1, 2, 3]"
    by blast
  from a b c d show ?thesis by blast
qed

text \<open>
  C10. \<^verbatim>\<open>dice_score\<close> depends only on the partitions its arguments induce: relabelling
  \<open>x\<close> by a function that is injective on the labels of \<open>x\<close>, and \<open>y\<close> by one that is
  injective on the labels of \<open>y\<close>, leaves the result (score or exception) unchanged.
  (Exact arithmetic: the order in which the per-instance maxima are added changes with
  the relabelling, which only a rounding addition could notice.)
\<close>

theorem dice_score_relabel:
  assumes "inj_on sigma (set x)" and "inj_on tau (set y)"
  shows "dice_score (map sigma x) (map tau y) = dice_score x y"
proof -
  let ?x = "map sigma x" and ?y = "map tau y"
  have inner: "Max (insert 0 (pair_score ?x ?y (sigma v) ` set ?y))
                 = Max (insert 0 (pair_score x y v ` set y))" if "v \<in> set x" for v
  proof -
    have "pair_score ?x ?y (sigma v) ` set ?y
            = (\<lambda>w. pair_score ?x ?y (sigma v) (tau w)) ` set y"
      by (simp add: image_image)
    also have "\<dots> = pair_score x y v ` set y"
      using assms that by (intro image_cong refl) (simp add: pair_score_map)
    finally show ?thesis by simp
  qed
  have "(\<Sum>u\<in>set ?x. Max (insert 0 (pair_score ?x ?y u ` set ?y)))
          = (\<Sum>v\<in>set x. Max (insert 0 (pair_score ?x ?y (sigma v) ` set ?y)))"
    using assms(1) by (simp add: sum.reindex)
  also have "\<dots> = (\<Sum>v\<in>set x. Max (insert 0 (pair_score x y v ` set y)))"
    by (intro sum.cong refl inner)
  finally have total:
    "(\<Sum>u\<in>set ?x. Max (insert 0 (pair_score ?x ?y u ` set ?y)))
       = (\<Sum>v\<in>set x. Max (insert 0 (pair_score x y v ` set y)))" .
  have card: "card (set ?x) = card (set x)"
    using assms(1) by (simp add: card_image)
  show ?thesis
    unfolding dice_score_sets [of ?x ?y] dice_score_sets [of x y] total card by simp
qed

theorem dice_score_relabel_witness:
  "inj_on (\<lambda>v. 7 - v) (set [1, 1, 2, 3 :: int])
   \<and> inj_on (\<lambda>v. v * v) (set [1, 2, 2, 2 :: int])
   \<and> dice_score [6, 6, 5, 4] [1, 4, 4, 4] = dice_score [1, 1, 2, 3] [1, 2, 2, 2]"
proof -
  have s: "inj_on (\<lambda>v. 7 - v) (set [1, 1, 2, 3 :: int])" by (simp add: inj_on_def)
  have t: "inj_on (\<lambda>v. v * v) (set [1, 2, 2, 2 :: int])" by (simp add: inj_on_def)
  from dice_score_relabel [OF s t] s t show ?thesis by simp
qed

section \<open>Facts about the sample providers\<close>

lemma split_on_nonempty: "split_on sep s \<noteq> []"
  by (induction s) (auto split: list.splits)

lemma length_split_on: "length (split_on sep s) = Suc (count_list s sep)"
  by (induction s) (auto split: list.splits)

lemma length_butlast_split_on: "length (butlast (split_on sep s)) = count_list s sep"
  by (simp add: length_split_on)

lemma split_on_singleton: "split_on sep s = [[]] \<longleftrightarrow> s = []"
  by (cases s) (auto simp: split_on_nonempty split: list.splits)

lemma last_split_on: "last (split_on sep s) = [] \<longleftrightarrow> s = [] \<or> last s = sep"
proof (induction s)
  case Nil
  show ?case by simp
next
  case (Cons c cs)
  show ?case
  proof (cases "c = sep")
    case True
    with Cons show ?thesis by (auto simp: split_on_nonempty)
  next
    case False
    obtain piece pieces where p: "split_on sep cs = piece # pieces"
      using split_on_nonempty [of sep cs] by (cases "split_on sep cs") auto
    show ?thesis
    proof (cases "pieces = []")
      case True
      with p Cons False split_on_singleton [of sep cs] show ?thesis by auto
    next
      case False
      with p Cons \<open>c \<noteq> sep\<close> split_on_singleton [of sep cs] show ?thesis by auto
    qed
  qed
qed

lemma newline_terminated_iff:
  "newline_terminated content \<longleftrightarrow> content = [] \<or> last content = newline"
  by (simp add: newline_terminated_def last_split_on)

lemma non_empty_lines_butlast:
  assumes "newline_terminated content" and "no_blank_line content"
  shows "non_empty_lines content = butlast (split_on newline content)"
proof -
  let ?ps = "split_on newline content"
  have split: "?ps = butlast ?ps @ [last ?ps]"
    using split_on_nonempty [of newline content] by simp
  have all: "filter (\<lambda>l. l \<noteq> []) (butlast ?ps) = butlast ?ps"
    using assms(2) by (simp add: no_blank_line_def filter_empty_conv)
  have "non_empty_lines content = filter (\<lambda>l. l \<noteq> []) (butlast ?ps @ [last ?ps])"
    using split by (simp add: non_empty_lines_def)
  also have "\<dots> = butlast ?ps"
    using assms(1) all by (simp add: newline_terminated_def)
  finally show ?thesis .
qed



lemma list_getitem_Inr:
  "list_getitem xs item = Inr v \<Longrightarrow> - int (length xs) \<le> item \<and> item < int (length xs)"
  by (auto simp: list_getitem_def Let_def split: if_splits)


lemma coco224Dataset_init_Inr:
  "coco224Dataset_init fs dp lp p = Inr ds \<Longrightarrow>
     \<exists>content. read_text fs p = Some content \<and> ids ds = butlast (split_on newline content)"
  by (auto simp: coco224Dataset_init_def split: option.splits)

lemma VOCDataset_init_Inr:
  "VOCDataset_init fs dp lp p h w ev = Inr ds \<Longrightarrow>
     \<exists>content. read_text fs p = Some content \<and> ids ds = butlast (split_on newline content)"
  by (auto simp: VOCDataset_init_def split: option.splits)








subsection \<open>Claims about the sample providers\<close>

text \<open>
  C4, as the claim states it: \<^verbatim>\<open>length()\<close> equals the number of non-empty lines of the
  identifier file. It does not: the constructor keeps every piece of
  \<^verbatim>\<open>read().split("\n")\<close> but the last, empty or not. An empty line before the end
  is counted as an identifier, and a file whose last identifier is not followed by a
  newline is shorter by that identifier.
\<close>

theorem provider_length_counterexample:
  "coco224Dataset_init (ids_fs blank_line_ids) ''img/'' ''lab/'' ''ids.txt''
       = Inr \<lparr>ids = [''a'', [], ''b''], data_path = ''img/'', labels_path = ''lab/''\<rparr>
   \<and> coco224Dataset_len \<lparr>ids = [''a'', [], ''b''], data_path = ''img/'', labels_path = ''lab/''\<rparr> = 3
   \<and> length (non_empty_lines blank_line_ids) = 2
   \<and> coco224Dataset_init (ids_fs unterminated_ids) ''img/'' ''lab/'' ''ids.txt'' = Inr example_coco
   \<and> coco224Dataset_len example_coco = 1
   \<and> VOCDataset_init (ids_fs unterminated_ids) ''img/'' ''lab/'' ''ids.txt'' 224 224 False
       = Inr example_voc
   \<and> VOCDataset_len example_voc = 1
   \<and> length (non_empty_lines unterminated_ids) = 2"
  by (simp add: coco224Dataset_init_def VOCDataset_init_def ids_fs_def example_fs_def
      example_coco_def example_voc_def unterminated_ids_def blank_line_ids_def newline_def
      coco224Dataset_len_def VOCDataset_len_def non_empty_lines_def)

text \<open>
  C4, amended: for both providers, when nothing follows the last newline of the
  identifier file (the file is empty or ends with a newline), \<^verbatim>\<open>length()\<close> equals the
  number of its lines, empty lines included, which is its number of newline characters;
  it equals the number of non-empty lines when, in addition, no line is empty.
\<close>

theorem provider_length_counts_lines:
  "(coco224Dataset_init fs dp lp p = Inr ds \<longrightarrow>
      (\<exists>content. read_text fs p = Some content
         \<and> (newline_terminated content \<longrightarrow>
              coco224Dataset_len ds = count_list content newline
              \<and> (no_blank_line content \<longrightarrow>
                   coco224Dataset_len ds = length (non_empty_lines content)))))
   \<and> (VOCDataset_init fs dp lp p h w ev = Inr vds \<longrightarrow>
      (\<exists>content. read_text fs p = Some content
         \<and> (newline_terminated content \<longrightarrow>
              VOCDataset_len vds = count_list content newline
              \<and> (no_blank_line content \<longrightarrow>
                   VOCDataset_len vds = length (non_empty_lines content)))))"
proof (intro conjI impI)
  assume "coco224Dataset_init fs dp lp p = Inr ds"
  then obtain content where c: "read_text fs p = Some content"
    "ids ds = butlast (split_on newline content)"
    using coco224Dataset_init_Inr by blast
  then show "\<exists>content. read_text fs p = Some content
         \<and> (newline_terminated content \<longrightarrow>
              coco224Dataset_len ds = count_list content newline
              \<and> (no_blank_line content \<longrightarrow>
                   coco224Dataset_len ds = length (non_empty_lines content)))"
    by (auto simp: coco224Dataset_len_def length_split_on non_empty_lines_butlast)
next
  assume "VOCDataset_init fs dp lp p h w ev = Inr vds"
  then obtain content where c: "read_text fs p = Some content"
    "ids vds = butlast (split_on newline content)"
    using VOCDataset_init_Inr by blast
  then show "\<exists>content. read_text fs p = Some content
         \<and> (newline_terminated content \<longrightarrow>
              VOCDataset_len vds = count_list content newline
              \<and> (no_blank_line content \<longrightarrow>
                   VOCDataset_len vds = length (non_empty_lines content)))"
    by (auto simp: VOCDataset_len_def length_split_on non_empty_lines_butlast)
qed

theorem provider_length_counts_lines_witness:
  "coco224Dataset_init example_fs ''img/'' ''lab/'' ''ids.txt'' = Inr example_coco
   \<and> VOCDataset_init example_fs ''img/'' ''lab/'' ''ids.txt'' 224 224 False = Inr example_voc
   \<and> newline_terminated (''a'' @ [newline])
   \<and> no_blank_line (''a'' @ [newline])
   \<and> coco224Dataset_len example_coco = length (non_empty_lines (''a'' @ [newline]))
   \<and> VOCDataset_len example_voc = length (non_empty_lines (''a'' @ [newline]))
   \<and> coco224Dataset_len example_coco = 1"
proof -
  note claim = provider_length_counts_lines [of example_fs "''img/''" "''lab/''" "''ids.txt''"
      example_coco 224 224 False example_voc]
  have a: "coco224Dataset_init example_fs ''img/'' ''lab/'' ''ids.txt'' = Inr example_coco"
    by (simp add: coco224Dataset_init_def example_fs_def example_coco_def newline_def)
  have b: "VOCDataset_init example_fs ''img/'' ''lab/'' ''ids.txt'' 224 224 False = Inr example_voc"
    by (simp add: VOCDataset_init_def example_fs_def example_voc_def newline_def)
  have c: "read_text example_fs ''ids.txt'' = Some (''a'' @ [newline])"
    by (simp add: example_fs_def)
  have d: "newline_terminated (''a'' @ [newline])" "no_blank_line (''a'' @ [newline])"
    by (simp_all add: newline_terminated_def no_blank_line_def newline_def)
  from claim a c d
  have e: "coco224Dataset_len example_coco = length (non_empty_lines (''a'' @ [newline]))"
    by auto
  from claim b c d
  have f: "VOCDataset_len example_voc = length (non_empty_lines (''a'' @ [newline]))"
    by auto
  have g: "coco224Dataset_len example_coco = 1"
    by (simp add: coco224Dataset_len_def example_coco_def)
  from a b d e f g show ?thesis by blast
qed






section \<open>Facts about the label predictor\<close>

lemma transpose_120_Inr:
  assumes "transpose_120 a = Inr t"
  shows "\<exists>c h w. shape a = [c, h, w] \<and> shape t = [h, w, c]"
  using assms by (auto simp: transpose_120_def split: list.splits)

lemma block_reduce_Inr:
  assumes "block_reduce a f = Inr r"
  shows "\<exists>h w c. shape a = [h, w, c] \<and> f \<noteq> 0 \<and> shape r = [ceil_div h f, ceil_div w f, c]"
  using assms by (auto simp: block_reduce_def Let_def split: list.splits if_splits)

lemma rescale_Inr:
  assumes "rescale a f = Inr m"
  shows "\<exists>h w. shape a = [h, w] \<and> shape m = [h * f, w * f]
           \<and> data m = concat (map (\<lambda>i. map (\<lambda>j. of_int (data a ! ((i div f) * w + j div f)))
                                           [0..<w * f]) [0..<h * f])"
  using assms by (auto simp: rescale_def split: list.splits)

lemma rescale_returns:
  "\<exists>m. rescale \<lparr>shape = [h, w], data = d\<rparr> f = Inr m"
  by (simp add: rescale_def)

lemma astype_int32_of_int: "astype_int32 (map of_int xs) = xs"
  by (induction xs) (simp_all add: astype_int32_def)

lemma astype_int32_grid:
  "astype_int32 (concat (map (\<lambda>i. map (\<lambda>j. of_int (g i j)) (js i)) rows))
     = concat (map (\<lambda>i. map (\<lambda>j. g i j) (js i)) rows)"
proof -
  have "concat (map (\<lambda>i. map (\<lambda>j. (of_int (g i j) :: rat)) (js i)) rows)
          = map of_int (concat (map (\<lambda>i. map (\<lambda>j. g i j) (js i)) rows))"
    by (simp add: map_concat comp_def)
  then show ?thesis by (simp only: astype_int32_of_int)
qed

lemma cluster_features_Inr:
  assumes "cluster_features ext points = Inr cluster_mask"
  shows "\<exists>raw. hdbscan_fit_predict ext points = Inr raw
           \<and> cluster_mask = map (\<lambda>l. if l = - 1 then 0 else l) raw"
  using assms by (auto simp: cluster_features_def split: sum.splits)

lemma predict_label_Inr:
  assumes "predict_label ext features f = Inr out"
  shows "\<exists>c h w points raw.
           shape features = [c, h, w] \<and> f \<noteq> 0
           \<and> hdbscan_fit_predict ext points = Inr raw
           \<and> length raw = ceil_div h f * ceil_div w f
           \<and> shape out = [ceil_div h f * f, ceil_div w f * f]
           \<and> data out = concat (map (\<lambda>i. map (\<lambda>j.
                 map (\<lambda>l. if l = - 1 then 0 else l) raw ! ((i div f) * ceil_div w f + j div f))
                   [0..<ceil_div w f * f]) [0..<ceil_div h f * f])"
proof (cases "transpose_120 features")
  case (Inl e)
  with assms show ?thesis by (simp add: predict_label_def)
next
  case t: (Inr t)
  from transpose_120_Inr [OF t] obtain c h w where
    s: "shape features = [c, h, w]" "shape t = [h, w, c]" by blast
  show ?thesis
  proof (cases "block_reduce t f")
    case (Inl e)
    with assms t show ?thesis by (simp add: predict_label_def)
  next
    case r: (Inr r)
    from block_reduce_Inr [OF r] s have
      f: "f \<noteq> 0" and sr: "shape r = [ceil_div h f, ceil_div w f, c]" by auto
    let ?h = "ceil_div h f" and ?w = "ceil_div w f"
    let ?pts = "reshape_points r (?h * ?w) c"
    show ?thesis
    proof (cases "reduce ext ?pts 10")
      case (Inl e)
      with assms t r sr show ?thesis by (simp add: predict_label_def)
    next
      case red: (Inr red)
      show ?thesis
      proof (cases "cluster_features ext red")
        case (Inl e)
        with assms t r sr red show ?thesis by (simp add: predict_label_def)
      next
        case cm: (Inr cm)
        obtain m where m: "rescale \<lparr>shape = [?h, ?w], data = cm\<rparr> f = Inr m"
          using rescale_returns by blast
        from assms t r sr red cm m have len: "length cm = ?h * ?w"
          and out: "out = \<lparr>shape = shape m, data = astype_int32 (data m)\<rparr>"
          by (simp_all add: predict_label_def split: if_splits)
        from rescale_Inr [OF m] have
          sm: "shape m = [?h * f, ?w * f]"
          and dm: "data m = concat (map (\<lambda>i. map (\<lambda>j. of_int (cm ! ((i div f) * ?w + j div f)))
                                           [0..<?w * f]) [0..<?h * f])"
          by simp_all
        from cluster_features_Inr [OF cm] obtain raw where
          raw: "hdbscan_fit_predict ext red = Inr raw"
          "cm = map (\<lambda>l. if l = - 1 then 0 else l) raw"
          by blast
        from len raw(2) have lr: "length raw = ?h * ?w" by simp
        have "data out = concat (map (\<lambda>i. map (\<lambda>j. cm ! ((i div f) * ?w + j div f))
                                           [0..<?w * f]) [0..<?h * f])"
          unfolding out dm by (simp add: astype_int32_grid)
        with s(1) f raw lr out sm show ?thesis by auto
      qed
    qed
  qed
qed

lemma predict_label_shape:
  assumes "predict_label ext features f = Inr out" and "shape features = [c, h, w]"
  shows "shape out = [ceil_div h f * f, ceil_div w f * f]"
  using predict_label_Inr [OF assms(1)] assms(2) by auto

lemma ceil_div_dvd:
  assumes "f dvd n" and "0 < f"
  shows "ceil_div n f * f = n"
proof -
  from assms(1) obtain k where k: "n = f * k" by (elim dvdE)
  have "(f * k + (f - 1)) div f = k"
    using assms(2) by (intro div_nat_eqI) simp_all
  moreover have "n + f - 1 = f * k + (f - 1)"
    using assms(2) k by simp
  ultimately show ?thesis
    by (simp add: ceil_div_def k)
qed



lemma predict_label_returns:
  assumes "shape features = [c, h, w]" and "f \<noteq> 0"
    and "\<And>points. \<exists>reduced. pca_fit_transform ext 10 points = Inr reduced"
    and "\<And>points. \<exists>raw. hdbscan_fit_predict ext points = Inr raw
                          \<and> length raw = ceil_div h f * ceil_div w f"
  shows "\<exists>out. predict_label ext features f = Inr out"
proof -
  obtain t where t: "transpose_120 features = Inr t" "shape t = [h, w, c]"
    using assms(1) by (simp add: transpose_120_def)
  obtain r where r: "block_reduce t f = Inr r" "shape r = [ceil_div h f, ceil_div w f, c]"
    using t(2) assms(2) by (simp add: block_reduce_def Let_def)
  let ?pts = "reshape_points r (ceil_div h f * ceil_div w f) c"
  obtain red where red: "reduce ext ?pts 10 = Inr red"
    using assms(3) [of ?pts] by (auto simp: reduce_def)
  obtain raw where raw: "hdbscan_fit_predict ext red = Inr raw"
    "length raw = ceil_div h f * ceil_div w f"
    using assms(4) [of red] by blast
  then have cm: "cluster_features ext red = Inr (map (\<lambda>l. if l = - 1 then 0 else l) raw)"
    by (simp add: cluster_features_def)
  show ?thesis
    using t r red cm raw(2) by (simp add: predict_label_def rescale_def)
qed

lemma predict_label_shape_divisible:
  assumes "predict_label ext features f = Inr out" and "shape features = [c, h, w]"
    and "f dvd h" and "f dvd w"
  shows "shape out = [h, w]"
proof -
  from predict_label_Inr [OF assms(1)] have "0 < f" by auto
  with predict_label_shape [OF assms(1,2)] assms(3,4) show ?thesis
    by (simp add: ceil_div_dvd)
qed


subsection \<open>Claims about the label predictor\<close>

text \<open>
  C3. The claim: for a feature tensor of shape \<open>[C,H,W]\<close> and a downsample factor in
  \<open>{1,2,4}\<close>, the mask has height \<open>H\<close> and width \<open>W\<close>. The code pools to
  \<open>\<lceil>H/f\<rceil> \<times> \<lceil>W/f\<rceil>\<close> and scales by \<open>f\<close>, so the mask is
  \<open>\<lceil>H/f\<rceil>f \<times> \<lceil>W/f\<rceil>f\<close> (lemma \<open>predict_label_shape\<close>): the input's size
  only when \<open>f\<close> divides \<open>H\<close> and \<open>W\<close> (lemma \<open>predict_label_shape_divisible\<close>).
  At a \<open>3 \<times> 3\<close> feature map and factor 2, with library calls that succeed, the code
  returns a \<open>4 \<times> 4\<close> mask, against the function's docstring (\<^verbatim>\<open>:return: (h,w) ndarray\<close>).
\<close>

theorem predict_label_odd_size:
  "predict_label stub_externals \<lparr>shape = [1, 3, 3], data = [1, 2, 3, 4, 5, 6, 7, 8, - 9]\<rparr> 2
     = Inr \<lparr>shape = [4, 4],
            data = [1, 1, 1, 1,  1, 1, 1, 1,  1, 1, 0, 0,  1, 1, 0, 0]\<rparr>"
  by code_simp



section \<open>Facts about the visualisation\<close>


lemma length_clear_255: "length (clear_255 xs) = length xs"
  by (simp add: clear_255_def)

lemma nth_clear_255:
  "i < length xs \<Longrightarrow> clear_255 xs ! i = (if xs ! i = 255 then 0 else xs ! i)"
  by (simp add: clear_255_def)

lemma clear_255_id: "255 \<notin> set xs \<Longrightarrow> clear_255 xs = xs"
  unfolding clear_255_def by (induction xs) auto

subsection \<open>Claims about the visualisation\<close>




section \<open>Facts about the evaluator\<close>

lemma eval_loop_all_ok:
  assumes "map (eval_batch ext model loss_fn) bs = map Inr rs"
  shows "eval_loop ext model loss_fn bs n rl rd i
           = Inr (rl + sum_list (map fst rs), rd + sum_list (map snd rs),
                  if bs = [] then i else Some (n + length bs - 1))"
  using assms
proof (induction bs arbitrary: rs n rl rd i)
  case Nil
  then show ?case by simp
next
  case (Cons b bs)
  then obtain r rs' where rs: "rs = r # rs'" "eval_batch ext model loss_fn b = Inr r"
    "map (eval_batch ext model loss_fn) bs = map Inr rs'"
    by (cases rs) auto
  obtain l d where r: "r = (l, d)" by (cases r)
  show ?case
    using Cons.IH [OF rs(3), of "Suc n" "rl + l" "rd + d" "Some n"] rs(1,2) r
    by (cases bs) (simp_all add: add.assoc)
qed

text \<open>
  What the code returns when every one of its \<open>N \<ge> 1\<close> batches is evaluated without
  an exception: the sums divided by \<open>N - 1\<close>, the last value of \<^verbatim>\<open>i\<close>.
\<close>

lemma evaluate_model_last_index:
  assumes "map (eval_batch ext model loss_fn) bs = map Inr rs" and "bs \<noteq> []"
  shows "evaluate_model ext model loss_fn bs
           = Inr (np_divide (sum_list (map fst rs)) (length bs - 1),
                  np_divide (sum_list (map snd rs)) (length bs - 1))"
  using assms(2) by (simp add: evaluate_model_def eval_loop_all_ok [OF assms(1)])

lemma evaluate_model_no_batch:
  "evaluate_model ext model loss_fn [] = Inl UnboundLocalError"
  by (simp add: evaluate_model_def)

subsection \<open>Claims about the evaluator\<close>

text \<open>
  C1. The claim: over \<open>N \<ge> 1\<close> batches \<^verbatim>\<open>evaluate_model\<close> returns the running sums
  divided by \<open>N\<close>, and for one batch that batch's loss and Dice score. The code divides
  by \<^verbatim>\<open>i\<close>, the index of the last batch, which is \<open>N - 1\<close> (lemma
  \<open>evaluate_model_last_index\<close>). Two batches with losses 1 and 3 and Dice scores 1 and
  1 give \<open>(4, 2)\<close> where the averages are \<open>(2, 1)\<close>; a single batch with loss 1 and
  Dice score 1 gives two infinities, the division of numpy floats by 0.
\<close>

theorem evaluate_model_divides_by_last_index:
  "eval_batch stub_externals example_model example_loss (example_batch 1) = Inr (1, 1)
   \<and> eval_batch stub_externals example_model example_loss (example_batch 3) = Inr (3, 1)
   \<and> evaluate_model stub_externals example_model example_loss
        [example_batch 1, example_batch 3] = Inr (Finite 4, Finite 2)
   \<and> evaluate_model stub_externals example_model example_loss [example_batch 1]
        = Inr (PosInf, PosInf)"
  by code_simp

end
